theory Spec2Isabelle
  imports Complex_Main "HOL-Library.Sublist"
begin

section \<open>Python strings\<close>

text \<open>
  A Python \<open>str\<close> is modelled as a \<open>string\<close>: the list of the bytes of its UTF-8
  encoding. The substring test \<open>k in s\<close> is \<open>sublist k s\<close> (a contiguous run).
  \<open>str.lower\<close>, \<open>str.strip\<close> and \<open>str.split\<close> are modelled on the ASCII range:
  \<open>lower\<close> maps \<open>A..Z\<close> to \<open>a..z\<close> and leaves every other byte alone, and the
  whitespace characters are the ten ASCII characters for which \<open>str.isspace\<close> holds.
\<close>

definition lower_char :: "char \<Rightarrow> char" where
  "lower_char c =
     (if 65 \<le> (of_char c :: nat) \<and> (of_char c :: nat) \<le> 90
      then char_of ((of_char c :: nat) + 32) else c)"

definition lower :: "string \<Rightarrow> string" where
  "lower s = map lower_char s"

definition is_space :: "char \<Rightarrow> bool" where
  "is_space c = ((of_char c :: nat) \<in> {9, 10, 11, 12, 13, 28, 29, 30, 31, 32})"

definition strip :: "string \<Rightarrow> string" where
  "strip s = rev (dropWhile is_space (rev (dropWhile is_space s)))"

text \<open>\<open>s.split(",")[0]\<close>: the text before the first comma (all of \<open>s\<close> without one).\<close>

definition before_comma :: "string \<Rightarrow> string" where
  "before_comma s = takeWhile (\<lambda>c. c \<noteq> CHR '','') s"

text \<open>\<open>len(s.split())\<close>: the number of maximal runs of non-whitespace characters.\<close>

fun words_from :: "bool \<Rightarrow> string \<Rightarrow> nat" where
  "words_from in_word [] = 0"
| "words_from in_word (c # cs) =
     (if is_space c then words_from False cs
      else (if in_word then 0 else 1) + words_from True cs)"

definition count_words :: "string \<Rightarrow> nat" where
  "count_words s = words_from False s"

text \<open>\<open>sep.join(parts)\<close>.\<close>

fun join :: "string \<Rightarrow> string list \<Rightarrow> string" where
  "join sep [] = []"
| "join sep [p] = p"
| "join sep (p # q # ps) = p @ sep @ join sep (q # ps)"

text \<open>\<open>str(n)\<close> for a non-negative integer: its decimal digits.\<close>

definition digit :: "nat \<Rightarrow> char" where
  "digit d = char_of (48 + d)"

fun str_nat :: "nat \<Rightarrow> string" where
  "str_nat n = (if n < 10 then [digit n] else str_nat (n div 10) @ [digit (n mod 10)])"

declare str_nat.simps [simp del]

text \<open>The em dash of the source's note texts, as its three UTF-8 bytes.\<close>

definition em_dash :: string where
  "em_dash = [char_of (226 :: nat), char_of (128 :: nat), char_of (148 :: nat)]"

section \<open>External services\<close>

text \<open>
  The forecast lists hold JSON values. The planner reads each one through \<open>float(v)\<close>
  inside \<open>try\<close>: a value is \<open>Num r\<close> when \<open>float\<close> returns \<open>r\<close>; \<open>Text s\<close> is a
  string that \<open>float\<close> rejects (the dates of the \<open>time\<close> list) and \<open>Null\<close> is JSON
  \<open>null\<close>, for both of which \<open>float\<close> raises.
\<close>

datatype wval = Num real | Text string | Null

fun py_float :: "wval \<Rightarrow> real option" where
  "py_float (Num r) = Some r"
| "py_float (Text s) = None"
| "py_float Null = None"

text \<open>
  The \<open>daily\<close> dictionary of the forecast, as an association list from key to list;
  the empty dictionary is the empty list. \<open>wget w k\<close> is \<open>w.get(k, [])\<close>.
\<close>

type_synonym weather = "(string \<times> wval list) list"

definition wget :: "weather \<Rightarrow> string \<Rightarrow> wval list" where
  "wget w k = (case map_of w k of None \<Rightarrow> [] | Some l \<Rightarrow> l)"

text \<open>
  What the geocoding services answer. A coordinate is \<open>None\<close> when the key is missing
  or \<open>float\<close> rejects its value; \<open>item_class\<close>, \<open>item_type\<close> and \<open>geo_type\<close> are
  the empty string when the key is missing or null. The links the source adds to a
  place (formatted from the coordinates) are left out: no decision reads them.
\<close>

record nom_item =
  display_name :: "string option"
  item_lat :: "real option"
  item_lon :: "real option"
  item_class :: string
  item_type :: string

record otm_geo =
  geo_lat :: "real option"
  geo_lon :: "real option"
  geo_name :: "string option"
  geo_type :: string

record place =
  lat :: real
  lon :: real
  place_name :: string
  category :: string

text \<open>
  A point of interest as the fetchers return it: \<open>poi_name\<close> is the empty string for
  a missing or null name, \<open>poi_kinds\<close> is \<open>None\<close> for Python's \<open>None\<close>. The fields
  \<open>dist\<close>, \<open>details\<close> and \<open>tags\<close> are left out: no decision reads them.
\<close>

record poi =
  poi_name :: string
  poi_kinds :: "string option"

record otm_feature =
  feat_name :: string
  feat_kinds :: "string option"
  feat_xid :: "string option"

record element =
  tags :: "string \<rightharpoonup> string"

text \<open>The HTTP requests a call sends, in order.\<close>

datatype request =
    OtmGeoname string
  | NominatimSearch string string
  | OtmRadius real real int int
  | OtmDetails string
  | OverpassQuery real real int int
  | OpenMeteo real real int int

text \<open>
  The world outside the program. Each service maps a request to \<open>Some\<close> parsed
  answer, or to \<open>None\<close> when the call raises (network error, HTTP error status,
  malformed JSON). \<open>api_key\<close> is \<open>OPENTRIPMAP_API_KEY\<close>, empty when unset.
  \<open>parse_date\<close> is \<open>dateutil.parser.parse(s).date()\<close> as the day's ordinal, \<open>None\<close>
  when it raises; \<open>today\<close> is \<open>datetime.date.today()\<close>.
\<close>

record env =
  api_key :: string
  otm_geoname :: "string \<Rightarrow> otm_geo option"
  nominatim_search :: "string \<Rightarrow> string \<Rightarrow> nom_item list option"
  otm_radius :: "real \<Rightarrow> real \<Rightarrow> int \<Rightarrow> int \<Rightarrow> otm_feature list option"
  overpass :: "real \<Rightarrow> real \<Rightarrow> int \<Rightarrow> int \<Rightarrow> element list option"
  open_meteo :: "real \<Rightarrow> real \<Rightarrow> int \<Rightarrow> int \<Rightarrow> weather option"
  parse_date :: "string \<Rightarrow> int option"
  today :: int

section \<open>Geocoding\<close>

text \<open>Lines 111 to 121 of \<open>geocode_nominatim_once\<close>: the category of a result.\<close>

definition derive_category :: "string \<Rightarrow> string \<Rightarrow> string" where
  "derive_category fclass ftype =
     (let class_type = lower (fclass @ '':'' @ ftype) in
      if sublist ''beach'' class_type \<or> sublist ''beach'' ftype then ''beach''
      else if list_ex (\<lambda>x. sublist x class_type)
                [''peak'', ''mountain'', ''hill'', ''ridge'', ''valley'', ''mountain_range'']
        then ''mountain/hill''
      else if sublist ''city'' class_type \<or> sublist ''town'' class_type
              \<or> sublist ''village'' class_type \<or> sublist ''county'' class_type then ''city''
      else if sublist ''water'' class_type \<or> sublist ''river'' class_type then ''water''
      else ''other'')"

definition geocode_opentripmap :: "env \<Rightarrow> string \<Rightarrow> place option \<times> request list" where
  "geocode_opentripmap e place_text =
     (if api_key e = [] then (None, [])
      else
        (case otm_geoname e place_text of
           None \<Rightarrow> None
         | Some d \<Rightarrow>
             (case (geo_lat d, geo_lon d) of
                (Some la, Some lo) \<Rightarrow>
                  Some \<lparr>lat = la, lon = lo,
                        place_name = (case geo_name d of None \<Rightarrow> place_text | Some n \<Rightarrow> n),
                        category = (if geo_type d \<noteq> [] then geo_type d else ''place'')\<rparr>
              | _ \<Rightarrow> None),
         [OtmGeoname place_text]))"

definition geocode_nominatim_once :: "env \<Rightarrow> string \<Rightarrow> string \<Rightarrow> place option \<times> request list" where
  "geocode_nominatim_once e place_text user_agent =
     ((case nominatim_search e place_text user_agent of
         None \<Rightarrow> None
       | Some items \<Rightarrow>
           if items = [] then None
           else
             (let qtoken = lower (strip (before_comma place_text));
                  chosen =
                    (case find (\<lambda>it. qtoken \<noteq> [] \<and>
                             sublist qtoken
                               (lower (case display_name it of None \<Rightarrow> [] | Some d \<Rightarrow> d))) items of
                       Some it \<Rightarrow> it
                     | None \<Rightarrow> hd items)
              in case (item_lat chosen, item_lon chosen) of
                   (Some la, Some lo) \<Rightarrow>
                     Some \<lparr>lat = la, lon = lo,
                           place_name =
                             (case display_name chosen of None \<Rightarrow> place_text | Some d \<Rightarrow> d),
                           category = derive_category (item_class chosen) (item_type chosen)\<rparr>
                 | _ \<Rightarrow> None)),
      [NominatimSearch place_text user_agent])"

definition user_agents :: "string list" where
  "user_agents = [''LangGraph-Travel-Agent/1.0'', ''Mozilla/5.0 (compatible; LangGraphAgent/1.0)'']"

definition geocode_nominatim :: "env \<Rightarrow> string \<Rightarrow> place option \<times> request list" where
  "geocode_nominatim e place_text =
     (case geocode_nominatim_once e place_text (user_agents ! 0) of
        (Some res, log1) \<Rightarrow> (Some res, log1)
      | (None, log1) \<Rightarrow>
          (case geocode_nominatim_once e place_text (user_agents ! 1) of
             (Some res, log2) \<Rightarrow> (Some res, log1 @ log2)
           | (None, log2) \<Rightarrow>
               if CHR '','' \<notin> set place_text \<and> count_words place_text \<le> 3 then
                 (case geocode_nominatim_once e (place_text @ '', India'') (user_agents ! 0) of
                    (res, log3) \<Rightarrow> (res, log1 @ log2 @ log3))
               else (None, log1 @ log2)))"

definition geocode_city :: "env \<Rightarrow> string \<Rightarrow> place option \<times> request list" where
  "geocode_city e place_arg =
     (let place_text = strip place_arg in
      if place_text = [] then (None, [])
      else
        (case geocode_opentripmap e place_text of
           (Some g, log1) \<Rightarrow> (Some g, log1)
         | (None, log1) \<Rightarrow>
             (case geocode_nominatim e place_text of
                (None, log2) \<Rightarrow> (None, log1 @ log2)
              | (Some g, log2) \<Rightarrow>
                  (let token = lower (strip (before_comma place_text));
                       display_lower = lower (place_name g)
                   in if token \<noteq> [] \<and> \<not> sublist token display_lower
                         \<and> \<not> sublist ''india'' display_lower then
                        (case geocode_nominatim e (place_text @ '', India'') of
                           (Some alt, log3) \<Rightarrow> (Some alt, log1 @ log2 @ log3)
                         | (None, log3) \<Rightarrow> (Some g, log1 @ log2 @ log3))
                      else (Some g, log1 @ log2)))))"

section \<open>Points of interest and weather\<close>

definition fetch_pois_opentripmap ::
  "env \<Rightarrow> real \<Rightarrow> real \<Rightarrow> int \<Rightarrow> int \<Rightarrow> poi list \<times> request list" where
  "fetch_pois_opentripmap e la lo radius limit =
     (if api_key e = [] then ([], [])
      else
        (case otm_radius e la lo radius limit of
           None \<Rightarrow> ([], [OtmRadius la lo radius limit])
         | Some features \<Rightarrow>
             (map (\<lambda>p. \<lparr>poi_name =
                            (if feat_name p \<noteq> [] then feat_name p
                             else (case feat_kinds p of None \<Rightarrow> ''unknown'' | Some k \<Rightarrow> k)),
                         poi_kinds = feat_kinds p\<rparr>) features,
              OtmRadius la lo radius limit
                # concat (map (\<lambda>p. case feat_xid p of None \<Rightarrow> []
                                     | Some x \<Rightarrow> if x = [] then [] else [OtmDetails x]) features))))"

text \<open>Lines 241 to 245: the kinds of an element, from its four tags.\<close>

definition element_kinds :: "(string \<rightharpoonup> string) \<Rightarrow> string" where
  "element_kinds tg =
     join '','' (filter (\<lambda>x. x \<noteq> [])
       (concat (map (\<lambda>k. case tg k of None \<Rightarrow> [] | Some v \<Rightarrow> [v])
          [''tourism'', ''historic'', ''leisure'', ''amenity''])))"

text \<open>The \<open>for e in el\<close> loop of lines 236 to 252, with \<open>results\<close> and \<open>seen\<close>.\<close>

fun overpass_loop :: "element list \<Rightarrow> int \<Rightarrow> poi list \<Rightarrow> string set \<Rightarrow> poi list" where
  "overpass_loop [] limit results seen = results"
| "overpass_loop (el # els) limit results seen =
     (case tags el ''name'' of
        None \<Rightarrow> overpass_loop els limit results seen
      | Some name \<Rightarrow>
          if name = [] then overpass_loop els limit results seen
          else
            (let kinds = element_kinds (tags el);
                 key = lower (strip name)
             in if key \<in> seen then overpass_loop els limit results seen
                else
                  (let results' =
                         results @ [\<lparr>poi_name = name,
                                     poi_kinds = Some (if kinds \<noteq> [] then kinds else ''unknown'')\<rparr>]
                   in if int (length results') \<ge> limit then results'
                      else overpass_loop els limit results' (insert key seen))))"

definition fetch_pois_overpass ::
  "env \<Rightarrow> real \<Rightarrow> real \<Rightarrow> int \<Rightarrow> int \<Rightarrow> poi list \<times> request list" where
  "fetch_pois_overpass e la lo radius limit =
     ((case overpass e la lo radius limit of
         None \<Rightarrow> []
       | Some els \<Rightarrow> overpass_loop els limit [] {}),
      [OverpassQuery la lo radius limit])"

text \<open>The \<open>for p in pois\<close> loop of lines 263 to 271, with \<open>filtered\<close> and \<open>seen\<close>.\<close>

fun filter_loop :: "poi list \<Rightarrow> poi list \<Rightarrow> string set \<Rightarrow> poi list" where
  "filter_loop [] filtered seen = filtered"
| "filter_loop (p # ps) filtered seen =
     (let name = strip (poi_name p) in
      if name = [] then filter_loop ps filtered seen
      else if lower name \<in> seen then filter_loop ps filtered seen
      else filter_loop ps (filtered @ [p]) (insert (lower name) seen))"

text \<open>The slice \<open>xs[:limit]\<close>; a negative \<open>limit\<close> counts from the end.\<close>

definition slice_to :: "int \<Rightarrow> 'a list \<Rightarrow> 'a list" where
  "slice_to limit xs =
     (if limit \<ge> 0 then take (nat limit) xs else take (length xs - nat (- limit)) xs)"

definition priority :: "string list" where
  "priority = [''attraction'', ''museum'', ''memorial'', ''monument'', ''historic'', ''park'',
               ''marketplace'', ''gallery'']"

text \<open>The \<open>for i, k in enumerate(priority)\<close> loop of \<open>score\<close>, from position \<open>i\<close>.\<close>

fun score_from :: "nat \<Rightarrow> string list \<Rightarrow> string \<Rightarrow> int" where
  "score_from i [] kinds = 0"
| "score_from i (k # ks) kinds =
     (if sublist k kinds then - (int (length priority) - int i) else score_from (i + 1) ks kinds)"

definition score :: "poi \<Rightarrow> int" where
  "score p = score_from 0 priority (lower (case poi_kinds p of None \<Rightarrow> [] | Some k \<Rightarrow> k))"

text \<open>\<open>list.sort(key=score)\<close> is stable, as \<open>sort_key\<close> is.\<close>

definition fetch_pois :: "env \<Rightarrow> real \<Rightarrow> real \<Rightarrow> int \<Rightarrow> int \<Rightarrow> poi list \<times> request list" where
  "fetch_pois e la lo radius limit =
     (case fetch_pois_opentripmap e la lo radius limit of
        (pois, log1) \<Rightarrow>
          if pois \<noteq> [] then (slice_to limit (filter_loop pois [] {}), log1)
          else
            (case fetch_pois_overpass e la lo radius (max limit 12) of
               (pois2, log2) \<Rightarrow>
                 if pois2 = [] then ([], log1 @ log2)
                 else (slice_to limit (sort_key score pois2), log1 @ log2)))"

definition fetch_weather :: "env \<Rightarrow> real \<Rightarrow> real \<Rightarrow> int \<Rightarrow> int \<Rightarrow> weather" where
  "fetch_weather e la lo start_date end_date =
     (case open_meteo e la lo start_date end_date of None \<Rightarrow> [] | Some daily \<Rightarrow> daily)"

section \<open>The planner: \<open>itinerary_agent\<close>, lines 383 to 455\<close>

record pool_entry =
  pe_name :: string
  is_indoor :: bool
  pe_kinds :: string

record row =
  date :: int
  morning :: string
  afternoon :: string
  evening :: string
  row_notes :: string

definition indoor_kinds :: "string list" where
  "indoor_kinds = [''museum'', ''theatre'', ''gallery'', ''library'', ''cinema'']"

subsection \<open>\<open>weather_note_for_day\<close>\<close>

definition precip_parts :: "wval list \<Rightarrow> nat \<Rightarrow> string list" where
  "precip_parts precip i =
     (if i < length precip then
        (let pr = (case py_float (precip ! i) of Some r \<Rightarrow> r | None \<Rightarrow> 0) in
         if pr \<ge> 10 then [''Heavy rain expected '' @ em_dash @ '' favor indoor activities'']
         else if pr \<ge> 2 then [''Chance of rain '' @ em_dash @ '' have indoor alternatives'']
         else if pr > 0 then [''Light showers possible'']
         else [''Good weather for walking''])
      else [])"

definition temp_parts :: "wval list \<Rightarrow> wval list \<Rightarrow> nat \<Rightarrow> string list" where
  "temp_parts tmax tmin i =
     (if i < length tmax \<and> i < length tmin then
        (case py_float (tmax ! i) of
           None \<Rightarrow> []
         | Some mx \<Rightarrow>
             (case py_float (tmin ! i) of
                None \<Rightarrow> []
              | Some mn \<Rightarrow>
                  if mx \<ge> 30 then [''Hot during day'']
                  else if mx \<le> 15 then [''Cool day '' @ em_dash @ '' bring a jacket'']
                  else []))
      else [])"

definition weather_note_for_day :: "wval list \<Rightarrow> wval list \<Rightarrow> wval list \<Rightarrow> nat \<Rightarrow> string" where
  "weather_note_for_day precip tmax tmin i =
     (let note_parts = precip_parts precip i @ temp_parts tmax tmin i in
      if note_parts \<noteq> [] then join ''; '' note_parts else ''No specific weather notes'')"

subsection \<open>The rain flag of a day\<close>

definition rainy :: "wval list \<Rightarrow> nat \<Rightarrow> bool" where
  "rainy precip day_index =
     (if day_index < length precip then
        (case py_float (precip ! day_index) of Some r \<Rightarrow> r \<ge> 2 | None \<Rightarrow> False)
      else False)"

subsection \<open>The round-robin pass and the backfill pass of one day\<close>

text \<open>
  The \<open>while\<close> loop of lines 431 to 441. The state is the cursor \<open>idx\<close>, the
  counter \<open>attempts\<close>, the list \<open>day_selected\<close> and the set \<open>assigned\<close>; the
  result is the state at the loop's exit.
\<close>

function round_robin ::
  "pool_entry list \<Rightarrow> bool \<Rightarrow> int \<Rightarrow> nat \<Rightarrow> nat \<Rightarrow> string list \<Rightarrow> string set
     \<Rightarrow> nat \<times> nat \<times> string list \<times> string set" where
  "round_robin pool rainy_day daily_limit idx attempts day_selected assigned =
     (if int (length day_selected) < daily_limit \<and> attempts < max 1 (length pool) * 2 then
        (if pool = [] then (idx + 1, attempts + 1, day_selected, assigned)
         else
           (let p = pool ! (idx mod max 1 (length pool)) in
            if pe_name p \<in> assigned then
              round_robin pool rainy_day daily_limit (idx + 1) (attempts + 1) day_selected assigned
            else if rainy_day \<and> \<not> is_indoor p then
              round_robin pool rainy_day daily_limit (idx + 1) (attempts + 1) day_selected assigned
            else
              round_robin pool rainy_day daily_limit (idx + 1) (attempts + 1)
                (day_selected @ [pe_name p]) (insert (pe_name p) assigned)))
      else (idx, attempts, day_selected, assigned))"
  by pat_completeness auto
termination
  by (relation "measure (\<lambda>(pool, rainy_day, daily_limit, idx, attempts, day_selected, assigned).
        max 1 (length pool) * 2 - attempts)") auto

declare round_robin.simps [simp del]

text \<open>The \<open>for p in pool\<close> loop of lines 443 to 449.\<close>

fun backfill :: "pool_entry list \<Rightarrow> int \<Rightarrow> string list \<Rightarrow> string set \<Rightarrow> string list \<times> string set" where
  "backfill [] daily_limit day_selected assigned = (day_selected, assigned)"
| "backfill (p # ps) daily_limit day_selected assigned =
     (if pe_name p \<in> assigned then backfill ps daily_limit day_selected assigned
      else if int (length (day_selected @ [pe_name p])) \<ge> daily_limit
        then (day_selected @ [pe_name p], insert (pe_name p) assigned)
      else backfill ps daily_limit (day_selected @ [pe_name p]) (insert (pe_name p) assigned))"

text \<open>Lines 429 to 449: the selection of one day, from the cursor and the assigned set
  the previous days left. The result is \<open>day_selected\<close>, the cursor and the assigned set.\<close>

definition select_day ::
  "pool_entry list \<Rightarrow> bool \<Rightarrow> int \<Rightarrow> nat \<Rightarrow> string set \<Rightarrow> string list \<times> nat \<times> string set" where
  "select_day pool rainy_day daily_limit idx assigned =
     (case round_robin pool rainy_day daily_limit idx 0 [] assigned of
        (idx', attempts, day_selected, assigned') \<Rightarrow>
          if int (length day_selected) < daily_limit then
            (case backfill pool daily_limit day_selected assigned' of
               (day_selected', assigned'') \<Rightarrow> (day_selected', idx', assigned''))
          else (day_selected, idx', assigned'))"

text \<open>Lines 451 to 455: the positional mapping to the three slots.\<close>

definition make_row :: "int \<Rightarrow> string list \<Rightarrow> string \<Rightarrow> row" where
  "make_row d day_selected note =
     \<lparr>date = d,
      morning = (if length day_selected > 0 then day_selected ! 0 else ''Free / explore locally''),
      afternoon = (if length day_selected > 1 then day_selected ! 1 else ''Free / explore locally''),
      evening = (if length day_selected > 2 then day_selected ! 2 else ''Dinner / relax''),
      row_notes = note\<rparr>"

text \<open>
  The \<open>for day_index in range(num_days)\<close> loop of lines 420 to 455, over the day
  indices still to do, threading the cursor and the assigned set from day to day.
\<close>

fun day_loop ::
  "int \<Rightarrow> int \<Rightarrow> pool_entry list \<Rightarrow> wval list \<Rightarrow> wval list \<Rightarrow> wval list \<Rightarrow> nat list
     \<Rightarrow> nat \<Rightarrow> string set \<Rightarrow> row list" where
  "day_loop sd daily_limit pool precip tmax tmin [] idx assigned = []"
| "day_loop sd daily_limit pool precip tmax tmin (day_index # rest) idx assigned =
     (case select_day pool (rainy precip day_index) daily_limit idx assigned of
        (day_selected, idx', assigned') \<Rightarrow>
          make_row (sd + int day_index) day_selected
            (weather_note_for_day precip tmax tmin day_index)
          # day_loop sd daily_limit pool precip tmax tmin rest idx' assigned')"

text \<open>
  The same loop, keeping for each day what the rows do not show: the cursor and the
  assigned set the day started from, and the whole of \<open>day_selected\<close>.
\<close>

record day_trace =
  idx_before :: nat
  assigned_before :: "string set"
  selected :: "string list"
  assigned_after :: "string set"

fun day_traces ::
  "int \<Rightarrow> pool_entry list \<Rightarrow> wval list \<Rightarrow> nat list \<Rightarrow> nat \<Rightarrow> string set \<Rightarrow> day_trace list" where
  "day_traces daily_limit pool precip [] idx assigned = []"
| "day_traces daily_limit pool precip (day_index # rest) idx assigned =
     (case select_day pool (rainy precip day_index) daily_limit idx assigned of
        (day_selected, idx', assigned') \<Rightarrow>
          \<lparr>idx_before = idx, assigned_before = assigned, selected = day_selected,
           assigned_after = assigned'\<rparr>
          # day_traces daily_limit pool precip rest idx' assigned')"

text \<open>Lines 473 and 474: the table lines, numbered from 1.\<close>

definition table_line :: "nat \<Rightarrow> row \<Rightarrow> string" where
  "table_line i r =
     ''| '' @ str_nat i @ '' | '' @ morning r @ '' | '' @ afternoon r @ '' | '' @ evening r
       @ '' | '' @ row_notes r @ '' |''"

definition table_lines :: "row list \<Rightarrow> string list" where
  "table_lines rows = map (\<lambda>(i, r). table_line i r) (zip [1 ..< Suc (length rows)] rows)"

section \<open>The tools\<close>

text \<open>
  A tool returns a text. The error texts are modelled as they are (\<open>Inl\<close>); a
  successful answer (\<open>Inr\<close>) is kept as the data the text is formatted from, since
  the formatting of floats and dates is Python's own. The table of the itinerary,
  which has neither, is rendered.
\<close>

definition geocode_error :: "string \<Rightarrow> string" where
  "geocode_error city = ''ERROR: Could not geocode '' @ [CHR 0x27] @ city @ [CHR 0x27] @ ''.''"






text \<open>Lines 383 to 388: the pool, each entry tagged \<open>is_indoor\<close>.\<close>

definition tag_pool :: "poi list \<Rightarrow> pool_entry list" where
  "tag_pool pool_pois =
     map (\<lambda>p. let kinds = lower (case poi_kinds p of None \<Rightarrow> [] | Some k \<Rightarrow> k) in
               \<lparr>pe_name = poi_name p,
                is_indoor = list_ex (\<lambda>k. sublist k kinds) indoor_kinds,
                pe_kinds = kinds\<rparr>) pool_pois"

text \<open>Line 376: the list of the pool under the table.\<close>

definition poi_lines :: "poi list \<Rightarrow> string" where
  "poi_lines pool_pois =
     (if pool_pois \<noteq> [] then
        join [CHR 0x0A]
          (map (\<lambda>p. ''- '' @ poi_name p @ '' (''
                     @ (case poi_kinds p of None \<Rightarrow> ''None'' | Some k \<Rightarrow> k) @ '')'') pool_pois)
      else ''No POIs found.'')"

record itinerary =
  it_place :: place
  it_start :: int
  it_end :: int
  it_rows :: "row list"
  it_table :: "string list"
  it_pois :: string

definition itinerary_agent :: "env \<Rightarrow> string \<Rightarrow> string \<Rightarrow> string \<Rightarrow> int \<Rightarrow> string + itinerary" where
  "itinerary_agent e city start_date end_date daily_limit =
     (case fst (geocode_city e city) of
        None \<Rightarrow> Inl (geocode_error city)
      | Some g \<Rightarrow>
          (case (parse_date e start_date, parse_date e end_date) of
             (Some sd, Some ed) \<Rightarrow>
               if ed < sd then Inl ''ERROR: end_date must be same or after start_date.''
               else
                 (let num_days = nat (ed - sd + 1);
                      pool_pois = fst (fetch_pois e (lat g) (lon g) 3500
                                    (max 20 (daily_limit * int num_days * 2)));
                      w = fetch_weather e (lat g) (lon g) sd ed;
                      precip = wget w ''precipitation_sum'';
                      tmax = wget w ''temperature_2m_max'';
                      tmin = wget w ''temperature_2m_min'';
                      pool = tag_pool pool_pois;
                      rows = day_loop sd daily_limit pool precip tmax tmin [0 ..< num_days] 0 {}
                  in Inr \<lparr>it_place = g, it_start = sd, it_end = ed, it_rows = rows,
                          it_table = table_lines rows, it_pois = poi_lines pool_pois\<rparr>)
           | _ \<Rightarrow> Inl ''ERROR: Dates must be YYYY-MM-DD.''))"

text \<open>
  The selections behind the rows of \<open>itinerary_agent\<close>: the same pool, forecast and
  loop, with each day's whole \<open>day_selected\<close> and assigned sets.
\<close>

definition itinerary_traces :: "env \<Rightarrow> place \<Rightarrow> int \<Rightarrow> int \<Rightarrow> int \<Rightarrow> day_trace list" where
  "itinerary_traces e g sd ed daily_limit =
     (let num_days = nat (ed - sd + 1);
          pool_pois = fst (fetch_pois e (lat g) (lon g) 3500
                        (max 20 (daily_limit * int num_days * 2)));
          w = fetch_weather e (lat g) (lon g) sd ed
      in day_traces daily_limit (tag_pool pool_pois) (wget w ''precipitation_sum'')
           [0 ..< num_days] 0 {})"

section \<open>Notions the properties are stated with\<close>

text \<open>
  \<open>picked pool ds as ds' as'\<close>: from \<open>day_selected = ds\<close> and \<open>assigned = as\<close> a pass
  arrives at \<open>ds'\<close> and \<open>as'\<close> by appending names of the pool that were not assigned,
  each once, and adding them to the assigned set.
\<close>

definition picked ::
  "pool_entry list \<Rightarrow> string list \<Rightarrow> string set \<Rightarrow> string list \<Rightarrow> string set \<Rightarrow> bool" where
  "picked pool ds as ds' as' \<longleftrightarrow>
     (\<exists>new. ds' = ds @ new \<and> as' = as \<union> set new \<and> distinct new \<and> set new \<inter> as = {}
        \<and> set new \<subseteq> pe_name ` set pool)"

text \<open>
  The category as the specification words it: ordered substring matches on the
  classification string \<open>class:type\<close>, the first match deciding.
\<close>

definition resolve_category :: "string \<Rightarrow> string" where
  "resolve_category class_type =
     (if sublist ''beach'' class_type then ''beach''
      else if \<exists>x \<in> set [''peak'', ''mountain'', ''hill'', ''ridge'', ''valley'', ''mountain_range''].
                sublist x class_type then ''mountain/hill''
      else if \<exists>x \<in> set [''city'', ''town'', ''village'', ''county''].
                sublist x class_type then ''city''
      else if \<exists>x \<in> set [''water'', ''river'']. sublist x class_type then ''water''
      else ''other'')"

text \<open>
  The pool and the precipitation list \<open>itinerary_agent\<close> plans with, and the names of
  the indoor entries of a pool that are not in an assigned set.
\<close>

definition itinerary_pool :: "env \<Rightarrow> place \<Rightarrow> int \<Rightarrow> int \<Rightarrow> int \<Rightarrow> pool_entry list" where
  "itinerary_pool e g sd ed daily_limit =
     tag_pool (fst (fetch_pois e (lat g) (lon g) 3500
       (max 20 (daily_limit * int (nat (ed - sd + 1)) * 2))))"

definition itinerary_precip :: "env \<Rightarrow> place \<Rightarrow> int \<Rightarrow> int \<Rightarrow> wval list" where
  "itinerary_precip e g sd ed = wget (fetch_weather e (lat g) (lon g) sd ed) ''precipitation_sum''"


section \<open>An example world\<close>

text \<open>
  A world for the concrete instances below: no OpenTripMap key, a Nominatim that knows
  Goa and Shimla, an Overpass answer with six named elements (two of them the same
  name up to case and spaces), a forecast for Goa and none for Shimla.
\<close>

definition demo_elements :: "element list" where
  "demo_elements =
     [\<lparr>tags = [''name'' \<mapsto> ''Fort Aguada'', ''historic'' \<mapsto> ''fort'']\<rparr>,
      \<lparr>tags = [''name'' \<mapsto> ''Goa State Museum'', ''tourism'' \<mapsto> ''museum'']\<rparr>,
      \<lparr>tags = [''name'' \<mapsto> ''Calangute Beach'', ''leisure'' \<mapsto> ''beach_resort'']\<rparr>,
      \<lparr>tags = [''historic'' \<mapsto> ''ruins'']\<rparr>,
      \<lparr>tags = [''name'' \<mapsto> ''Kala Academy'', ''amenity'' \<mapsto> ''theatre'']\<rparr>,
      \<lparr>tags = [''name'' \<mapsto> '' goa state museum '', ''tourism'' \<mapsto> ''gallery'']\<rparr>,
      \<lparr>tags = [''name'' \<mapsto> ''Central Library'', ''tourism'' \<mapsto> ''attraction'',
               ''amenity'' \<mapsto> ''library'']\<rparr>]"

definition demo_env :: env where
  "demo_env =
     \<lparr>api_key = [],
      otm_geoname = (\<lambda>q. None),
      nominatim_search = (\<lambda>q ua.
        if q = ''Goa'' then
          Some [\<lparr>display_name = Some ''Goa, India'', item_lat = Some 15, item_lon = Some 74,
                 item_class = ''boundary'', item_type = ''administrative''\<rparr>]
        else if q = ''Shimla'' then
          Some [\<lparr>display_name = Some ''Shimla, Himachal Pradesh, India'', item_lat = Some 31,
                 item_lon = Some 77, item_class = ''place'', item_type = ''city''\<rparr>]
        else Some []),
      otm_radius = (\<lambda>la lo radius limit. None),
      overpass = (\<lambda>la lo radius limit. Some demo_elements),
      open_meteo = (\<lambda>la lo sd ed.
        if la = 15 then
          Some [(''time'', [Text ''2024-01-10'', Text ''2024-01-11'', Text ''2024-01-12'']),
                (''temperature_2m_max'', [Num 31, Num 12, Num 20]),
                (''temperature_2m_min'', [Num 24, Num 5, Null]),
                (''precipitation_sum'', [Num 5, Num 0, Null])]
        else None),
      parse_date = (\<lambda>s.
        if s = ''2024-01-10'' then Some 738895
        else if s = ''2024-01-12'' then Some 738897
        else if s = ''2024-02-01'' then Some 738917
        else None),
      today = 738917\<rparr>"

section \<open>The selection of one day\<close>

lemma round_robin_exit:
  "\<not> (int (length ds) < dl \<and> attempts < max 1 (length pool) * 2) \<Longrightarrow>
   round_robin pool r dl idx attempts ds as = (idx, attempts, ds, as)"
  by (subst round_robin.simps) auto

lemma round_robin_empty:
  "int (length ds) < dl \<Longrightarrow> attempts < max 1 (length pool) * 2 \<Longrightarrow> pool = [] \<Longrightarrow>
   round_robin pool r dl idx attempts ds as = (idx + 1, attempts + 1, ds, as)"
  by (subst round_robin.simps) simp

lemma round_robin_skip:
  "int (length ds) < dl \<Longrightarrow> attempts < max 1 (length pool) * 2 \<Longrightarrow> pool \<noteq> [] \<Longrightarrow>
   pe_name (pool ! (idx mod max 1 (length pool))) \<in> as
     \<or> (r \<and> \<not> is_indoor (pool ! (idx mod max 1 (length pool)))) \<Longrightarrow>
   round_robin pool r dl idx attempts ds as = round_robin pool r dl (idx + 1) (attempts + 1) ds as"
  by (subst round_robin.simps) (auto simp: Let_def)

lemma round_robin_take:
  "int (length ds) < dl \<Longrightarrow> attempts < max 1 (length pool) * 2 \<Longrightarrow> pool \<noteq> [] \<Longrightarrow>
   pe_name (pool ! (idx mod max 1 (length pool))) \<notin> as \<Longrightarrow>
   \<not> (r \<and> \<not> is_indoor (pool ! (idx mod max 1 (length pool)))) \<Longrightarrow>
   round_robin pool r dl idx attempts ds as =
     round_robin pool r dl (idx + 1) (attempts + 1)
       (ds @ [pe_name (pool ! (idx mod max 1 (length pool)))])
       (insert (pe_name (pool ! (idx mod max 1 (length pool)))) as)"
  by (subst round_robin.simps) (auto simp: Let_def)

lemma cursor_in_pool: "pool \<noteq> [] \<Longrightarrow> pool ! (idx mod max 1 (length pool)) \<in> set pool"
proof -
  assume "pool \<noteq> []"
  then have "max 1 (length pool) = length pool" by (cases pool) auto
  moreover have "idx mod length pool < length pool" using \<open>pool \<noteq> []\<close> by simp
  ultimately show ?thesis by simp
qed

lemma round_robin_rule:
  assumes exit: "\<And>idx attempts ds as.
      \<not> (int (length ds) < dl \<and> attempts < max 1 (length pool) * 2) \<Longrightarrow>
      Q idx attempts ds as (idx, attempts, ds, as)"
    and empty: "\<And>idx attempts ds as.
      int (length ds) < dl \<Longrightarrow> attempts < max 1 (length pool) * 2 \<Longrightarrow> pool = [] \<Longrightarrow>
      Q idx attempts ds as (idx + 1, attempts + 1, ds, as)"
    and skip: "\<And>idx attempts ds as res.
      int (length ds) < dl \<Longrightarrow> attempts < max 1 (length pool) * 2 \<Longrightarrow> pool \<noteq> [] \<Longrightarrow>
      pe_name (pool ! (idx mod max 1 (length pool))) \<in> as
        \<or> (r \<and> \<not> is_indoor (pool ! (idx mod max 1 (length pool)))) \<Longrightarrow>
      Q (idx + 1) (attempts + 1) ds as res \<Longrightarrow> Q idx attempts ds as res"
    and take: "\<And>idx attempts ds as res.
      int (length ds) < dl \<Longrightarrow> attempts < max 1 (length pool) * 2 \<Longrightarrow> pool \<noteq> [] \<Longrightarrow>
      pe_name (pool ! (idx mod max 1 (length pool))) \<notin> as \<Longrightarrow>
      \<not> (r \<and> \<not> is_indoor (pool ! (idx mod max 1 (length pool)))) \<Longrightarrow>
      Q (idx + 1) (attempts + 1) (ds @ [pe_name (pool ! (idx mod max 1 (length pool)))])
        (insert (pe_name (pool ! (idx mod max 1 (length pool)))) as) res \<Longrightarrow>
      Q idx attempts ds as res"
  shows "Q idx attempts ds as (round_robin pool r dl idx attempts ds as)"
  using assms
proof (induction pool r dl idx attempts ds as rule: round_robin.induct)
  case (1 pool r dl idx attempts ds as)
  let ?p = "pool ! (idx mod max 1 (length pool))"
  show ?case
  proof (cases "int (length ds) < dl \<and> attempts < max 1 (length pool) * 2")
    case False
    then show ?thesis using "1.prems"(1) by (simp add: round_robin_exit)
  next
    case go: True
    show ?thesis
    proof (cases "pool = []")
      case True
      with go show ?thesis using "1.prems"(2) by (simp add: round_robin_empty)
    next
      case ne: False
      show ?thesis
      proof (cases "pe_name ?p \<in> as")
        case True
        have ih: "Q (idx + 1) (attempts + 1) ds as
            (round_robin pool r dl (idx + 1) (attempts + 1) ds as)"
          by (rule "1.IH"(1)[OF go ne refl True]) (fact "1.prems")+
        have eq: "round_robin pool r dl idx attempts ds as
            = round_robin pool r dl (idx + 1) (attempts + 1) ds as"
          using go ne True by (intro round_robin_skip) simp_all
        show ?thesis unfolding eq
          by (rule "1.prems"(3)) (use go ne True ih in simp_all)
      next
        case na: False
        show ?thesis
        proof (cases "r \<and> \<not> is_indoor ?p")
          case True
          have ih: "Q (idx + 1) (attempts + 1) ds as
              (round_robin pool r dl (idx + 1) (attempts + 1) ds as)"
            by (rule "1.IH"(2)[OF go ne refl na True]) (fact "1.prems")+
          have eq: "round_robin pool r dl idx attempts ds as
              = round_robin pool r dl (idx + 1) (attempts + 1) ds as"
            using go ne True by (intro round_robin_skip) simp_all
          show ?thesis unfolding eq
            by (rule "1.prems"(3)) (use go ne True ih in simp_all)
        next
          case False
          have ih: "Q (idx + 1) (attempts + 1) (ds @ [pe_name ?p]) (insert (pe_name ?p) as)
              (round_robin pool r dl (idx + 1) (attempts + 1) (ds @ [pe_name ?p])
                 (insert (pe_name ?p) as))"
            by (rule "1.IH"(3)[OF go ne refl na False]) (fact "1.prems")+
          have eq: "round_robin pool r dl idx attempts ds as
              = round_robin pool r dl (idx + 1) (attempts + 1) (ds @ [pe_name ?p])
                  (insert (pe_name ?p) as)"
            using go ne na False by (intro round_robin_take) simp_all
          show ?thesis unfolding eq
            by (rule "1.prems"(4)) (use go ne na False ih in simp_all)
        qed
      qed
    qed
  qed
qed

lemma round_robin_attempts:
  "attempts \<le> max 1 (length pool) * 2 \<longrightarrow>
   fst (snd (round_robin pool r dl idx attempts ds as)) \<le> max 1 (length pool) * 2"
  by (rule round_robin_rule[where Q = "\<lambda>idx attempts ds as res.
        attempts \<le> max 1 (length pool) * 2 \<longrightarrow> fst (snd res) \<le> max 1 (length pool) * 2"]) auto

lemma round_robin_cursor:
  "fst (round_robin pool r dl idx attempts ds as) + attempts
     = idx + fst (snd (round_robin pool r dl idx attempts ds as))"
  by (rule round_robin_rule[where Q = "\<lambda>idx attempts ds as res.
        fst res + attempts = idx + fst (snd res)"]) auto

lemma picked_refl: "picked pool ds as ds as"
  by (simp add: picked_def)

lemma picked_step:
  assumes "x \<notin> as" "x \<in> pe_name ` set pool" "picked pool (ds @ [x]) (insert x as) ds' as'"
  shows "picked pool ds as ds' as'"
proof -
  from assms(3) obtain new where n: "ds' = (ds @ [x]) @ new" "as' = insert x as \<union> set new"
    "distinct new" "set new \<inter> insert x as = {}" "set new \<subseteq> pe_name ` set pool"
    unfolding picked_def by blast
  have "ds' = ds @ (x # new)" "as' = as \<union> set (x # new)" "distinct (x # new)"
    "set (x # new) \<inter> as = {}" "set (x # new) \<subseteq> pe_name ` set pool"
    using n assms(1,2) by auto
  then show ?thesis unfolding picked_def by blast
qed

lemma round_robin_picked:
  "picked pool ds as (fst (snd (snd (round_robin pool r dl idx attempts ds as))))
     (snd (snd (snd (round_robin pool r dl idx attempts ds as))))"
proof (rule round_robin_rule[where Q = "\<lambda>idx attempts ds as res.
        picked pool ds as (fst (snd (snd res))) (snd (snd (snd res)))"])
  fix idx attempts ds as and res :: "nat \<times> nat \<times> string list \<times> string set"
  let ?p = "pool ! (idx mod max 1 (length pool))"
  assume "pool \<noteq> []" "pe_name ?p \<notin> as"
    "picked pool (ds @ [pe_name ?p]) (insert (pe_name ?p) as) (fst (snd (snd res))) (snd (snd (snd res)))"
  then show "picked pool ds as (fst (snd (snd res))) (snd (snd (snd res)))"
    using cursor_in_pool[of pool idx] by (rule_tac x = "pe_name ?p" in picked_step) auto
qed (simp_all add: picked_refl)

lemma backfill_picked:
  "backfill ps dl ds as = (ds', as') \<Longrightarrow> set ps \<subseteq> set pool \<Longrightarrow> picked pool ds as ds' as'"
proof (induction ps dl ds as rule: backfill.induct)
  case (1 dl ds as)
  then show ?case by (simp add: picked_refl)
next
  case (2 p ps dl ds as)
  show ?case
  proof (cases "pe_name p \<in> as")
    case True
    with 2 show ?thesis by simp
  next
    case False
    have "picked pool (ds @ [pe_name p]) (insert (pe_name p) as) ds' as'"
      using 2 False by (auto simp: picked_refl split: if_splits)
    with False "2.prems"(2) show ?thesis
      by (rule_tac x = "pe_name p" in picked_step) auto
  qed
qed

lemma picked_trans:
  assumes "picked pool ds as ds1 as1" "picked pool ds1 as1 ds2 as2"
  shows "picked pool ds as ds2 as2"
proof -
  from assms(1) obtain n1 where a: "ds1 = ds @ n1" "as1 = as \<union> set n1" "distinct n1"
    "set n1 \<inter> as = {}" "set n1 \<subseteq> pe_name ` set pool"
    unfolding picked_def by blast
  from assms(2) obtain n2 where b: "ds2 = ds1 @ n2" "as2 = as1 \<union> set n2" "distinct n2"
    "set n2 \<inter> as1 = {}" "set n2 \<subseteq> pe_name ` set pool"
    unfolding picked_def by blast
  have "ds2 = ds @ (n1 @ n2)" "as2 = as \<union> set (n1 @ n2)" "distinct (n1 @ n2)"
    "set (n1 @ n2) \<inter> as = {}" "set (n1 @ n2) \<subseteq> pe_name ` set pool"
    using a b by auto
  then show ?thesis unfolding picked_def by blast
qed

lemma select_day_picked:
  assumes "select_day pool r dl idx as = (ds, idx', as')"
  shows "picked pool [] as ds as'"
proof -
  obtain i1 a1 ds1 as1 where rr: "round_robin pool r dl idx 0 [] as = (i1, a1, ds1, as1)"
    by (metis prod_cases4)
  have p1: "picked pool [] as ds1 as1" using round_robin_picked[of pool "[]" as r dl idx 0] rr by simp
  show ?thesis
  proof (cases "int (length ds1) < dl")
    case False
    with assms rr have "ds = ds1" "as' = as1" by (auto simp: select_day_def)
    with p1 show ?thesis by simp
  next
    case True
    obtain ds2 as2 where bf: "backfill pool dl ds1 as1 = (ds2, as2)" by (metis prod.exhaust)
    with True assms rr have "ds = ds2" "as' = as2" by (auto simp: select_day_def)
    with picked_trans[OF p1 backfill_picked[OF bf]] show ?thesis by simp
  qed
qed

text \<open>
  C6. Each day the round-robin loop starts with \<open>attempts = 0\<close> and an empty
  \<open>day_selected\<close>. Whatever the pool, the rain flag, the quota, the cursor and the
  assigned set, it returns, and at its exit it has made at most
  \<open>2 * max 1 (length pool)\<close> attempts, the cursor having advanced by that many.
\<close>

theorem round_robin_attempts_bounded:
  "fst (snd (round_robin pool rainy_day daily_limit idx 0 [] assigned)) \<le> 2 * max 1 (length pool)
   \<and> fst (round_robin pool rainy_day daily_limit idx 0 [] assigned)
       = idx + fst (snd (round_robin pool rainy_day daily_limit idx 0 [] assigned))"
  using round_robin_attempts[of 0 pool rainy_day daily_limit idx "[]" assigned]
    round_robin_cursor[of pool rainy_day daily_limit idx 0 "[]" assigned]
  by (simp add: mult.commute)

section \<open>Rows, dates and notes\<close>

lemma day_loop_length:
  "length (day_loop sd dl pool precip tmax tmin days idx as) = length days"
  by (induction days arbitrary: idx as) (auto split: prod.splits)

lemma day_loop_dates:
  "map date (day_loop sd dl pool precip tmax tmin days idx as) = map (\<lambda>i. sd + int i) days"
  by (induction days arbitrary: idx as) (auto split: prod.splits simp: make_row_def)

lemma day_loop_notes:
  "map row_notes (day_loop sd dl pool precip tmax tmin days idx as)
     = map (weather_note_for_day precip tmax tmin) days"
  by (induction days arbitrary: idx as) (auto split: prod.splits simp: make_row_def)

lemma consecutive_days: "map (\<lambda>i. sd + int i) [0 ..< n] = [sd .. sd + int n - 1]"
proof (induction n)
  case 0
  then show ?case by simp
next
  case (Suc n)
  have "[sd .. sd + int (Suc n) - 1] = [sd .. sd + int n - 1] @ [sd + int n]"
    using upto_rec2[of sd "sd + int n"] by (simp add: add.commute)
  with Suc show ?case by simp
qed

lemma table_lines_nth:
  "i < length rows \<Longrightarrow> table_lines rows ! i = table_line (i + 1) (rows ! i)"
  by (simp add: table_lines_def nth_append del: upt_Suc)

lemma itinerary_agent_rows:
  assumes "fst (geocode_city e city) = Some g" "parse_date e start_date = Some sd"
    "parse_date e end_date = Some ed" "sd \<le> ed"
  shows "itinerary_agent e city start_date end_date daily_limit =
    Inr \<lparr>it_place = g, it_start = sd, it_end = ed,
         it_rows = day_loop sd daily_limit
           (tag_pool (fst (fetch_pois e (lat g) (lon g) 3500
              (max 20 (daily_limit * int (nat (ed - sd + 1)) * 2)))))
           (wget (fetch_weather e (lat g) (lon g) sd ed) ''precipitation_sum'')
           (wget (fetch_weather e (lat g) (lon g) sd ed) ''temperature_2m_max'')
           (wget (fetch_weather e (lat g) (lon g) sd ed) ''temperature_2m_min'')
           [0 ..< nat (ed - sd + 1)] 0 {},
         it_table = table_lines (day_loop sd daily_limit
           (tag_pool (fst (fetch_pois e (lat g) (lon g) 3500
              (max 20 (daily_limit * int (nat (ed - sd + 1)) * 2)))))
           (wget (fetch_weather e (lat g) (lon g) sd ed) ''precipitation_sum'')
           (wget (fetch_weather e (lat g) (lon g) sd ed) ''temperature_2m_max'')
           (wget (fetch_weather e (lat g) (lon g) sd ed) ''temperature_2m_min'')
           [0 ..< nat (ed - sd + 1)] 0 {}),
         it_pois = poi_lines (fst (fetch_pois e (lat g) (lon g) 3500
              (max 20 (daily_limit * int (nat (ed - sd + 1)) * 2))))\<rparr>"
  using assms unfolding itinerary_agent_def Let_def by simp

text \<open>
  C1. When the place is geocoded and both dates parse with \<open>sd \<le> ed\<close>, the planner
  answers with an itinerary of exactly \<open>(ed - sd) + 1\<close> rows whose dates are
  \<open>sd, sd + 1, ..., ed\<close> in this order, and the table has one line per row, the line
  of row \<open>i\<close> (counted from 0) carrying the day number \<open>i + 1\<close>.
\<close>

theorem itinerary_day_rows:
  assumes "fst (geocode_city e city) = Some g" "parse_date e start_date = Some sd"
    "parse_date e end_date = Some ed" "sd \<le> ed"
  shows "\<exists>it. itinerary_agent e city start_date end_date daily_limit = Inr it
     \<and> length (it_rows it) = nat (ed - sd) + 1
     \<and> map date (it_rows it) = [sd .. ed]
     \<and> length (it_table it) = nat (ed - sd) + 1
     \<and> (\<forall>i < nat (ed - sd) + 1. it_table it ! i =
           ''| '' @ str_nat (i + 1) @ '' | '' @ morning (it_rows it ! i) @ '' | ''
             @ afternoon (it_rows it ! i) @ '' | '' @ evening (it_rows it ! i) @ '' | ''
             @ row_notes (it_rows it ! i) @ '' |'')"
proof -
  have n: "nat (ed - sd + 1) = nat (ed - sd) + 1" using assms(4) by simp
  have "[sd .. sd + int (nat (ed - sd + 1)) - 1] = [sd .. ed]" using assms(4) by simp
  then show ?thesis
    unfolding itinerary_agent_rows[OF assms]
    by (simp add: day_loop_length day_loop_dates consecutive_days n table_lines_nth
        table_lines_def table_line_def del: upt_Suc)
qed

lemma precip_parts_cases:
  "precip_parts precip i = [] \<or> (\<exists>p. precip_parts precip i = [p])"
  by (simp add: precip_parts_def Let_def)

lemma note_without_temp:
  "temp_parts tmax tmin i = [] \<Longrightarrow>
   weather_note_for_day precip tmax tmin i = weather_note_for_day precip [] [] i"
  by (simp add: weather_note_for_day_def temp_parts_def)

lemma note_with_temp:
  "temp_parts tmax tmin i = [t] \<Longrightarrow> suffix t (weather_note_for_day precip tmax tmin i)"
  using precip_parts_cases[of precip i]
  by (auto simp: weather_note_for_day_def suffix_def)

text \<open>
  C8, as stated, fails: at index 0 every forecast list holds a value and the maximum
  is 35 degrees, but the minimum is \<open>null\<close>, and the notes carry no hot-day note.
\<close>

theorem temperature_note_needs_min_counterexample:
  "weather_note_for_day [Num 0] [Num 35] [Null] 0 = ''Good weather for walking''"
  by (simp add: weather_note_for_day_def precip_parts_def temp_parts_def)

text \<open>
  C8, amended. At a day index where both the maximum and the minimum temperature are
  present and numeric, the notes end with the temperature note that the maximum alone
  decides: the hot-day note from 30 degrees, the cool-day note up to 15 degrees, and
  between the two no temperature note (the notes are those of the precipitation
  alone); with no precipitation value either, the notes are the neutral message.
\<close>

theorem temperature_note:
  assumes "i < length tmax" "i < length tmin"
    "py_float (tmax ! i) = Some mx" "py_float (tmin ! i) = Some mn"
  shows "(mx \<ge> 30 \<longrightarrow> suffix ''Hot during day'' (weather_note_for_day precip tmax tmin i))
    \<and> (mx \<le> 15 \<longrightarrow>
         suffix (''Cool day '' @ em_dash @ '' bring a jacket'') (weather_note_for_day precip tmax tmin i))
    \<and> (15 < mx \<and> mx < 30 \<longrightarrow>
         weather_note_for_day precip tmax tmin i = weather_note_for_day precip [] [] i)
    \<and> (15 < mx \<and> mx < 30 \<and> length precip \<le> i \<longrightarrow>
         weather_note_for_day precip tmax tmin i = ''No specific weather notes'')"
proof -
  have t: "temp_parts tmax tmin i =
      (if mx \<ge> 30 then [''Hot during day'']
       else if mx \<le> 15 then [''Cool day '' @ em_dash @ '' bring a jacket''] else [])"
    using assms by (simp add: temp_parts_def)
  have "mx \<ge> 30 \<Longrightarrow> suffix ''Hot during day'' (weather_note_for_day precip tmax tmin i)"
    using t by (intro note_with_temp) simp
  moreover have "mx \<le> 15 \<Longrightarrow>
      suffix (''Cool day '' @ em_dash @ '' bring a jacket'') (weather_note_for_day precip tmax tmin i)"
    using t by (intro note_with_temp) simp
  moreover have "15 < mx \<Longrightarrow> mx < 30 \<Longrightarrow>
      weather_note_for_day precip tmax tmin i = weather_note_for_day precip [] [] i"
    using t by (intro note_without_temp) simp
  moreover have "length precip \<le> i \<Longrightarrow>
      weather_note_for_day precip [] [] i = ''No specific weather notes''"
    by (simp add: weather_note_for_day_def precip_parts_def temp_parts_def)
  ultimately show ?thesis by auto
qed

theorem temperature_note_witness:
  "suffix ''Hot during day'' (weather_note_for_day [Num 5] [Num 31] [Num 24] 0)
   \<and> weather_note_for_day [] [Num 20] [Num 10] 0 = ''No specific weather notes''"
  using temperature_note[of 0 "[Num 31]" "[Num 24]" 31 24 "[Num 5]"]
    temperature_note[of 0 "[Num 20]" "[Num 10]" 20 10 "[]"]
  by auto

section \<open>Facts of the example world\<close>

lemma demo_geocode_goa:
  "fst (geocode_city demo_env ''Goa'')
     = Some \<lparr>lat = 15, lon = 74, place_name = ''Goa, India'', category = ''other''\<rparr>"
  by code_simp

lemma demo_geocode_shimla:
  "fst (geocode_city demo_env ''Shimla'')
     = Some \<lparr>lat = 31, lon = 77, place_name = ''Shimla, Himachal Pradesh, India'',
             category = ''city''\<rparr>"
  by code_simp

lemma demo_parse_dates:
  "parse_date demo_env ''2024-01-10'' = Some 738895"
  "parse_date demo_env ''2024-01-12'' = Some 738897"
  "parse_date demo_env ''2024-02-01'' = Some 738917"
  by (simp_all add: demo_env_def)

text \<open>C1 in the example world: three days in Goa, from 10 to 12 January 2024.\<close>

theorem itinerary_day_rows_witness:
  "\<exists>it. itinerary_agent demo_env ''Goa'' ''2024-01-10'' ''2024-01-12'' 2 = Inr it
     \<and> length (it_rows it) = 3
     \<and> map date (it_rows it) = [738895, 738896, 738897]
     \<and> length (it_table it) = 3"
proof -
  have "[738895 .. 738897] = [738895, 738896, 738897 :: int]" by (simp add: upto.simps)
  then show ?thesis
    using itinerary_day_rows[OF demo_geocode_goa demo_parse_dates(1,2), of 2] by auto
qed

section \<open>An empty forecast\<close>

lemma wget_empty: "wget [] k = []"
  by (simp add: wget_def)

lemma rainy_empty: "\<not> rainy [] i"
  by (simp add: rainy_def)

lemma note_empty: "weather_note_for_day [] [] [] i = ''No specific weather notes''"
  by (simp add: weather_note_for_day_def precip_parts_def temp_parts_def)

lemma notes_empty:
  "map (weather_note_for_day [] [] []) days = replicate (length days) ''No specific weather notes''"
  by (induction days) (simp_all add: note_empty)

text \<open>
  C4. When the forecast call fails, or answers with the empty dictionary, the fetched
  weather is empty, the rain flag is off on every day, and every row of the itinerary
  has the neutral notes; a plan of one day has one row, with these notes.
\<close>

theorem empty_weather_neutral_notes:
  assumes "fst (geocode_city e city) = Some g" "parse_date e start_date = Some sd"
    "parse_date e end_date = Some ed" "sd \<le> ed"
    "open_meteo e (lat g) (lon g) sd ed = None \<or> open_meteo e (lat g) (lon g) sd ed = Some []"
  shows "fetch_weather e (lat g) (lon g) sd ed = []
     \<and> (\<forall>i. \<not> rainy (wget (fetch_weather e (lat g) (lon g) sd ed) ''precipitation_sum'') i)
     \<and> (\<exists>it. itinerary_agent e city start_date end_date daily_limit = Inr it
           \<and> map row_notes (it_rows it)
               = replicate (nat (ed - sd) + 1) ''No specific weather notes''
           \<and> (sd = ed \<longrightarrow> (\<exists>r. it_rows it = [r] \<and> row_notes r = ''No specific weather notes'')))"
proof -
  have w: "fetch_weather e (lat g) (lon g) sd ed = []"
    using assms(5) by (auto simp: fetch_weather_def)
  let ?rows = "day_loop sd daily_limit
           (tag_pool (fst (fetch_pois e (lat g) (lon g) 3500
              (max 20 (daily_limit * int (nat (ed - sd + 1)) * 2)))))
           [] [] [] [0 ..< nat (ed - sd + 1)] 0 {}"
  have n: "nat (ed - sd + 1) = nat (ed - sd) + 1" using assms(4) by simp
  have nts: "map row_notes ?rows = replicate (nat (ed - sd) + 1) ''No specific weather notes''"
    by (simp add: day_loop_notes notes_empty n del: upt_Suc replicate_Suc)
  have one: "\<exists>r. ?rows = [r] \<and> row_notes r = ''No specific weather notes''" if "sd = ed"
  proof -
    have "length ?rows = 1" unfolding day_loop_length using that by simp
    then obtain r where r: "?rows = [r]" by (auto simp: length_Suc_conv)
    with nts that have "row_notes r = ''No specific weather notes''" by simp
    with r show ?thesis by blast
  qed
  show ?thesis
    unfolding itinerary_agent_rows[OF assms(1-4)] w
    using nts one by (simp add: wget_empty rainy_empty)
qed

text \<open>C4 in the example world: one day in Shimla, for which the forecast call fails.\<close>

theorem empty_weather_neutral_notes_witness:
  "\<exists>it. itinerary_agent demo_env ''Shimla'' ''2024-02-01'' ''2024-02-01'' 3 = Inr it
     \<and> (\<exists>r. it_rows it = [r] \<and> row_notes r = ''No specific weather notes'')"
proof -
  have "open_meteo demo_env 31 77 738917 738917 = None" by (simp add: demo_env_def)
  then show ?thesis
    using empty_weather_neutral_notes[OF demo_geocode_shimla demo_parse_dates(3,3), of 3]
    by fastforce
qed

section \<open>The category of a place\<close>

lemma lower_append: "lower (a @ b) = lower a @ lower b"
  by (simp add: lower_def)

lemma sublist_lower: "sublist k s \<Longrightarrow> sublist (lower k) (lower s)"
  unfolding lower_def by (rule map_mono_sublist)

lemma lower_beach: "lower ''beach'' = ''beach''"
  by code_simp

lemma beach_in_type:
  assumes "sublist ''beach'' ftype"
  shows "sublist ''beach'' (lower (fclass @ '':'' @ ftype))"
proof -
  have eq: "lower (fclass @ '':'' @ ftype) = lower (fclass @ '':'') @ lower ftype"
    by (simp add: lower_def)
  have "sublist ''beach'' (lower ftype)"
    using sublist_lower[OF assms] by (simp only: lower_beach)
  moreover have "sublist (lower ftype) (lower (fclass @ '':'') @ lower ftype)"
    by (rule sublist_append_leftI)
  ultimately show ?thesis
    unfolding eq by (rule sublist_order.order.trans)
qed

lemma bex_list2: "(\<exists>x \<in> set [a, b]. P x) = (P a \<or> P b)"
  by simp

lemma bex_list4: "(\<exists>x \<in> set [a, b, c, d]. P x) = (P a \<or> P b \<or> P c \<or> P d)"
  by simp

lemma derive_category_refines:
  "derive_category fclass ftype = resolve_category (lower (fclass @ '':'' @ ftype))"
proof -
  have b: "(sublist ''beach'' (lower (fclass @ '':'' @ ftype)) \<or> sublist ''beach'' ftype)
      = sublist ''beach'' (lower (fclass @ '':'' @ ftype))"
    using beach_in_type[of ftype fclass] by blast
  show ?thesis
    unfolding derive_category_def resolve_category_def Let_def list_ex_iff bex_list4 bex_list2 b
    by (rule refl)
qed

lemma peak_category: "derive_category ''natural'' ''peak'' = ''mountain/hill''"
  by code_simp

lemma beach_category: "derive_category fclass ''beach'' = ''beach''"
  using beach_in_type[of "''beach''" fclass] by (simp add: derive_category_def)

text \<open>
  C7. The category the geocoder derives is the result of the ordered substring matches
  on the lower-cased \<open>class:type\<close> string: beach first, then the mountain words, then
  the settlement words, then the water words, otherwise other. In particular class
  \<open>natural\<close> with type \<open>peak\<close> gives \<open>mountain/hill\<close>, and type \<open>beach\<close> gives
  \<open>beach\<close> whatever the class.
\<close>

theorem category_derivation:
  "derive_category fclass ftype = resolve_category (lower (fclass @ '':'' @ ftype))
   \<and> derive_category ''natural'' ''peak'' = ''mountain/hill''
   \<and> derive_category fclass ''beach'' = ''beach''"
  using derive_category_refines peak_category beach_category by blast

text \<open>C7 at two mixed-case classifications.\<close>

theorem category_derivation_witness:
  "derive_category ''Natural'' ''Mountain_Range'' = ''mountain/hill''
   \<and> derive_category ''waterway'' ''River'' = ''water''"
proof -
  have "resolve_category (lower (''Natural'' @ '':'' @ ''Mountain_Range'')) = ''mountain/hill''"
    by code_simp
  moreover have "resolve_category (lower (''waterway'' @ '':'' @ ''River'')) = ''water''"
    by code_simp
  ultimately show ?thesis
    using category_derivation[of "''Natural''" "''Mountain_Range''"]
      category_derivation[of "''waterway''" "''River''"]
    by simp
qed

section \<open>Blank place names\<close>




section \<open>The selections of all the days\<close>

lemma picked_facts:
  assumes "picked pool [] as ds as'"
  shows "as' = as \<union> set ds" "distinct ds" "set ds \<inter> as = {}" "set ds \<subseteq> pe_name ` set pool"
  using assms by (auto simp: picked_def)

lemma day_traces_length:
  "length (day_traces dl pool precip days idx as) = length days"
  by (induction days arbitrary: idx as) (auto split: prod.splits)

lemma day_traces_step:
  "\<forall>t \<in> set (day_traces dl pool precip days idx as).
     as \<subseteq> assigned_before t \<and> assigned_after t = assigned_before t \<union> set (selected t)
     \<and> picked pool [] (assigned_before t) (selected t) (assigned_after t)"
proof (induction days arbitrary: idx as)
  case Nil
  then show ?case by simp
next
  case (Cons d days)
  obtain ds idx' as' where sel: "select_day pool (rainy precip d) dl idx as = (ds, idx', as')"
    by (metis prod_cases3)
  note p = picked_facts[OF select_day_picked[OF sel]]
  have "as \<subseteq> as'" using p(1) by blast
  with Cons.IH[of idx' as'] sel p(1) select_day_picked[OF sel] show ?case
    by auto
qed

lemma day_traces_distinct:
  "distinct (concat (map selected (day_traces dl pool precip days idx as)))
   \<and> set (concat (map selected (day_traces dl pool precip days idx as))) \<inter> as = {}"
proof (induction days arbitrary: idx as)
  case Nil
  then show ?case by simp
next
  case (Cons d days)
  obtain ds idx' as' where sel: "select_day pool (rainy precip d) dl idx as = (ds, idx', as')"
    by (metis prod_cases3)
  note p = picked_facts[OF select_day_picked[OF sel]]
  let ?rest = "concat (map selected (day_traces dl pool precip days idx' as'))"
  have ih: "distinct ?rest" "set ?rest \<inter> as' = {}" using Cons.IH[of idx' as'] by auto
  have "set ds \<inter> set ?rest = {}" using ih(2) p(1) by blast
  moreover have "set ?rest \<inter> as = {}" using ih(2) p(1) by blast
  ultimately show ?case using sel p(2,3) ih(1) by auto
qed

lemma day_traces_later:
  "i < j \<Longrightarrow> j < length days \<Longrightarrow>
   assigned_after (day_traces dl pool precip days idx as ! i)
     \<subseteq> assigned_before (day_traces dl pool precip days idx as ! j)"
proof (induction days arbitrary: idx as i j)
  case Nil
  then show ?case by simp
next
  case (Cons d days)
  obtain ds idx' as' where sel: "select_day pool (rainy precip d) dl idx as = (ds, idx', as')"
    by (metis prod_cases3)
  obtain j' where j: "j = Suc j'" using Cons.prems(1) by (cases j) auto
  have j'len: "j' < length days" using Cons.prems(2) j by simp
  show ?case
  proof (cases i)
    case 0
    have "day_traces dl pool precip days idx' as' ! j' \<in> set (day_traces dl pool precip days idx' as')"
      using j'len by (simp add: day_traces_length)
    then have "as' \<subseteq> assigned_before (day_traces dl pool precip days idx' as' ! j')"
      using day_traces_step[of dl pool precip days idx' as'] by blast
    with 0 j sel show ?thesis by simp
  next
    case (Suc i')
    with Cons.IH[of i' j' idx' as'] Cons.prems j j'len sel show ?thesis by simp
  qed
qed

lemma day_traces_nth:
  "i < length days \<Longrightarrow>
   \<exists>idx'. select_day pool (rainy precip (days ! i)) dl
       (idx_before (day_traces dl pool precip days idx as ! i))
       (assigned_before (day_traces dl pool precip days idx as ! i))
     = (selected (day_traces dl pool precip days idx as ! i), idx',
        assigned_after (day_traces dl pool precip days idx as ! i))"
proof (induction days arbitrary: idx as i)
  case Nil
  then show ?case by simp
next
  case (Cons d days)
  obtain ds idx' as' where sel: "select_day pool (rainy precip d) dl idx as = (ds, idx', as')"
    by (metis prod_cases3)
  show ?case
  proof (cases i)
    case 0
    with sel show ?thesis by simp
  next
    case (Suc i')
    with Cons.IH[of i' idx' as'] Cons.prems sel show ?thesis by simp
  qed
qed

lemma day_loop_traces:
  "day_loop sd dl pool precip tmax tmin days idx as
     = map (\<lambda>(i, t). make_row (sd + int i) (selected t) (weather_note_for_day precip tmax tmin i))
         (zip days (day_traces dl pool precip days idx as))"
  by (induction days arbitrary: idx as) (auto split: prod.splits)

lemma distinct_concat_take:
  "distinct (concat xss) \<Longrightarrow> distinct (concat (map (take n) xss))"
proof (induction xss)
  case Nil
  then show ?case by simp
next
  case (Cons xs xss)
  have "set (take n xs) \<subseteq> set xs" by (rule set_take_subset)
  moreover have "set (concat (map (take n) xss)) \<subseteq> set (concat xss)"
    using set_take_subset[of n] by fastforce
  ultimately show ?case using Cons by (auto simp: distinct_take)
qed

lemma distinct_concat_nth:
  "distinct (concat xss) \<Longrightarrow> i < j \<Longrightarrow> j < length xss \<Longrightarrow> set (xss ! i) \<inter> set (xss ! j) = {}"
proof (induction xss arbitrary: i j)
  case Nil
  then show ?case by simp
next
  case (Cons xs xss)
  obtain j' where j: "j = Suc j'" using Cons.prems(2) by (cases j) auto
  show ?case
  proof (cases i)
    case 0
    have "xss ! j' \<in> set xss" using Cons.prems(3) j by simp
    then have "set (xss ! j') \<subseteq> set (concat xss)" by auto
    with Cons.prems(1) 0 j show ?thesis by auto
  next
    case (Suc i')
    with Cons.IH[of i' j'] Cons.prems j show ?thesis by simp
  qed
qed

lemma itinerary_traces_eq:
  "itinerary_traces e g sd ed dl
     = day_traces dl (itinerary_pool e g sd ed dl) (itinerary_precip e g sd ed)
         [0 ..< nat (ed - sd + 1)] 0 {}"
  by (simp add: itinerary_traces_def itinerary_pool_def itinerary_precip_def Let_def)

lemma itinerary_agent_InrD:
  assumes "itinerary_agent e city start_date end_date dl = Inr it"
  shows "fst (geocode_city e city) = Some (it_place it)
    \<and> parse_date e start_date = Some (it_start it)
    \<and> parse_date e end_date = Some (it_end it) \<and> it_start it \<le> it_end it"
  using assms unfolding itinerary_agent_def Let_def
  by (auto split: option.splits if_splits)

lemma itinerary_agent_fields:
  assumes "fst (geocode_city e city) = Some g" "parse_date e start_date = Some sd"
    "parse_date e end_date = Some ed" "sd \<le> ed"
  shows "\<exists>it. itinerary_agent e city start_date end_date dl = Inr it
     \<and> it_place it = g \<and> it_start it = sd \<and> it_end it = ed
     \<and> it_rows it = day_loop sd dl (itinerary_pool e g sd ed dl) (itinerary_precip e g sd ed)
          (wget (fetch_weather e (lat g) (lon g) sd ed) ''temperature_2m_max'')
          (wget (fetch_weather e (lat g) (lon g) sd ed) ''temperature_2m_min'')
          [0 ..< nat (ed - sd + 1)] 0 {}"
  by (simp add: itinerary_agent_rows[OF assms] itinerary_pool_def itinerary_precip_def)

lemma itinerary_rows_traces:
  assumes "itinerary_agent e city start_date end_date dl = Inr it"
  shows "it_rows it =
     map (\<lambda>(i, t). make_row (it_start it + int i) (selected t)
            (weather_note_for_day (itinerary_precip e (it_place it) (it_start it) (it_end it))
               (wget (fetch_weather e (lat (it_place it)) (lon (it_place it)) (it_start it) (it_end it))
                  ''temperature_2m_max'')
               (wget (fetch_weather e (lat (it_place it)) (lon (it_place it)) (it_start it) (it_end it))
                  ''temperature_2m_min'') i))
       (zip [0 ..< nat (it_end it - it_start it + 1)]
          (itinerary_traces e (it_place it) (it_start it) (it_end it) dl))"
proof -
  note d = itinerary_agent_InrD[OF assms]
  obtain R where R: "itinerary_agent e city start_date end_date dl = Inr R"
    "it_rows R = day_loop (it_start it) dl
          (itinerary_pool e (it_place it) (it_start it) (it_end it) dl)
          (itinerary_precip e (it_place it) (it_start it) (it_end it))
          (wget (fetch_weather e (lat (it_place it)) (lon (it_place it)) (it_start it) (it_end it))
             ''temperature_2m_max'')
          (wget (fetch_weather e (lat (it_place it)) (lon (it_place it)) (it_start it) (it_end it))
             ''temperature_2m_min'')
          [0 ..< nat (it_end it - it_start it + 1)] 0 {}"
    using itinerary_agent_fields[of e city "it_place it" start_date "it_start it" end_date
        "it_end it" dl] d by blast
  have "R = it" using R(1) assms by simp
  then show ?thesis
    using R(2) by (simp add: day_loop_traces itinerary_traces_eq)
qed

text \<open>
  C2. In an itinerary the planner returns, the three slots of each day show the first
  three names of that day's \<open>day_selected\<close> (a placeholder where it is shorter), and
  the names selected over all the days, by the round-robin pass and by the backfill
  pass alike, are pairwise different: no name is in two slots, of one day or of two.
\<close>

theorem assignment_globally_unique:
  assumes "itinerary_agent e city start_date end_date daily_limit = Inr it"
  shows "length (itinerary_traces e (it_place it) (it_start it) (it_end it) daily_limit)
       = length (it_rows it)
    \<and> (\<forall>i < length (it_rows it).
          morning (it_rows it ! i) =
            (let ds = selected (itinerary_traces e (it_place it) (it_start it) (it_end it) daily_limit ! i)
             in if 0 < length ds then ds ! 0 else ''Free / explore locally'')
        \<and> afternoon (it_rows it ! i) =
            (let ds = selected (itinerary_traces e (it_place it) (it_start it) (it_end it) daily_limit ! i)
             in if 1 < length ds then ds ! 1 else ''Free / explore locally'')
        \<and> evening (it_rows it ! i) =
            (let ds = selected (itinerary_traces e (it_place it) (it_start it) (it_end it) daily_limit ! i)
             in if 2 < length ds then ds ! 2 else ''Dinner / relax''))
    \<and> distinct (concat (map (\<lambda>t. take 3 (selected t))
          (itinerary_traces e (it_place it) (it_start it) (it_end it) daily_limit)))
    \<and> distinct (concat (map selected
          (itinerary_traces e (it_place it) (it_start it) (it_end it) daily_limit)))"
proof -
  let ?tr = "itinerary_traces e (it_place it) (it_start it) (it_end it) daily_limit"
  have len: "length ?tr = nat (it_end it - it_start it + 1)"
    by (simp add: itinerary_traces_eq day_traces_length)
  have rows: "length (it_rows it) = length ?tr"
    unfolding itinerary_rows_traces[OF assms] using len by simp
  have nth: "it_rows it ! i = make_row (it_start it + int i) (selected (?tr ! i))
       (weather_note_for_day (itinerary_precip e (it_place it) (it_start it) (it_end it))
               (wget (fetch_weather e (lat (it_place it)) (lon (it_place it)) (it_start it) (it_end it))
                  ''temperature_2m_max'')
               (wget (fetch_weather e (lat (it_place it)) (lon (it_place it)) (it_start it) (it_end it))
                  ''temperature_2m_min'') i)" if "i < length (it_rows it)" for i
    using that rows len unfolding itinerary_rows_traces[OF assms] by simp
  have d: "distinct (concat (map selected ?tr))"
    unfolding itinerary_traces_eq using day_traces_distinct by blast
  have "distinct (concat (map (take 3) (map selected ?tr)))"
    using d by (rule distinct_concat_take)
  then have d3: "distinct (concat (map (\<lambda>t. take 3 (selected t)) ?tr))"
    by (simp add: comp_def)
  show ?thesis using rows nth d d3 by (simp add: make_row_def Let_def)
qed

lemma demo_traces_2:
  "map selected (itinerary_traces demo_env
      \<lparr>lat = 15, lon = 74, place_name = ''Goa, India'', category = ''other''\<rparr> 738895 738897 2)
   = [[''Central Library'', ''Goa State Museum''], [''Fort Aguada'', ''Calangute Beach''],
      [''Kala Academy'']]"
  by code_simp

text \<open>C2 in the example world: three days in Goa with two slots a day.\<close>

theorem assignment_globally_unique_witness:
  "distinct (concat (map selected (itinerary_traces demo_env
      \<lparr>lat = 15, lon = 74, place_name = ''Goa, India'', category = ''other''\<rparr> 738895 738897 2)))
   \<and> concat (map selected (itinerary_traces demo_env
      \<lparr>lat = 15, lon = 74, place_name = ''Goa, India'', category = ''other''\<rparr> 738895 738897 2))
     = [''Central Library'', ''Goa State Museum'', ''Fort Aguada'', ''Calangute Beach'',
        ''Kala Academy'']"
proof -
  obtain it where it: "itinerary_agent demo_env ''Goa'' ''2024-01-10'' ''2024-01-12'' 2 = Inr it"
    "it_place it = \<lparr>lat = 15, lon = 74, place_name = ''Goa, India'', category = ''other''\<rparr>"
    "it_start it = 738895" "it_end it = 738897"
    using itinerary_agent_fields[OF demo_geocode_goa demo_parse_dates(1,2), of 2] by auto
  have d: "distinct (concat (map selected (itinerary_traces demo_env
      \<lparr>lat = 15, lon = 74, place_name = ''Goa, India'', category = ''other''\<rparr> 738895 738897 2)))"
    using assignment_globally_unique[OF it(1)] unfolding it(2,3,4) by blast
  have v: "concat (map selected (itinerary_traces demo_env
      \<lparr>lat = 15, lon = 74, place_name = ''Goa, India'', category = ''other''\<rparr> 738895 738897 2))
     = [''Central Library'', ''Goa State Museum'', ''Fort Aguada'', ''Calangute Beach'',
        ''Kala Academy'']"
    by (simp only: demo_traces_2 concat.simps append.simps)
  show ?thesis using d v by blast
qed

section \<open>The quota of a day\<close>

lemma round_robin_length:
  "int (length ds) \<le> max 0 dl \<longrightarrow>
   int (length (fst (snd (snd (round_robin pool r dl idx attempts ds as))))) \<le> max 0 dl"
  by (rule round_robin_rule[where Q = "\<lambda>idx attempts ds as res.
        int (length ds) \<le> max 0 dl \<longrightarrow> int (length (fst (snd (snd res)))) \<le> max 0 dl"]) auto

lemma backfill_length:
  "int (length ds) < dl \<Longrightarrow> int (length (fst (backfill ps dl ds as))) \<le> dl"
  by (induction ps dl ds as rule: backfill.induct) auto

lemma backfill_grows: "backfill ps dl ds as = (ds', as') \<Longrightarrow> as \<subseteq> as'"
  using backfill_picked[of ps dl ds as ds' as' ps] by (auto simp: picked_def)

lemma backfill_fills:
  "int (length ds) < dl \<Longrightarrow> backfill ps dl ds as = (ds', as') \<Longrightarrow>
   dl \<le> int (length ds') \<or> pe_name ` set ps \<subseteq> as'"
proof (induction ps dl ds as rule: backfill.induct)
  case (1 dl ds as)
  then show ?case by simp
next
  case (2 p ps dl ds as)
  show ?case
  proof (cases "pe_name p \<in> as")
    case True
    then have bf: "backfill ps dl ds as = (ds', as')" using "2.prems" by simp
    from "2.IH"(1)[OF True "2.prems"(1) bf] backfill_grows[OF bf] True show ?thesis by auto
  next
    case False
    show ?thesis
    proof (cases "int (length (ds @ [pe_name p])) \<ge> dl")
      case True
      with False "2.prems" show ?thesis by auto
    next
      case nf: False
      then have bf: "backfill ps dl (ds @ [pe_name p]) (insert (pe_name p) as) = (ds', as')"
        using False "2.prems" by simp
      have "int (length (ds @ [pe_name p])) < dl" using nf by simp
      from "2.IH"(2)[OF False nf this bf] backfill_grows[OF bf] show ?thesis by auto
    qed
  qed
qed

lemma select_day_quota:
  assumes "select_day pool r dl idx as = (ds, idx', as')"
  shows "int (length ds) \<le> max 0 dl" "dl \<le> int (length ds) \<or> pe_name ` set pool \<subseteq> as'"
proof -
  obtain i1 a1 ds1 as1 where rr: "round_robin pool r dl idx 0 [] as = (i1, a1, ds1, as1)"
    by (metis prod_cases4)
  have l1: "int (length ds1) \<le> max 0 dl"
    using round_robin_length[of "[]" dl pool r idx 0 as] rr by simp
  show "int (length ds) \<le> max 0 dl"
  proof (cases "int (length ds1) < dl")
    case False
    with assms rr l1 show ?thesis by (auto simp: select_day_def)
  next
    case True
    obtain ds2 as2 where bf: "backfill pool dl ds1 as1 = (ds2, as2)" by (metis prod.exhaust)
    with True assms rr have "ds = ds2" by (auto simp: select_day_def)
    with backfill_length[OF True, of pool as1] bf show ?thesis by simp
  qed
  show "dl \<le> int (length ds) \<or> pe_name ` set pool \<subseteq> as'"
  proof (cases "int (length ds1) < dl")
    case False
    with assms rr show ?thesis by (auto simp: select_day_def)
  next
    case True
    obtain ds2 as2 where bf: "backfill pool dl ds1 as1 = (ds2, as2)" by (metis prod.exhaust)
    with True assms rr have "ds = ds2" "as' = as2" by (auto simp: select_day_def)
    with backfill_fills[OF True bf] show ?thesis by simp
  qed
qed

section \<open>Selections beyond the third\<close>

lemma make_row_slots:
  "[morning (make_row d ds n), afternoon (make_row d ds n), evening (make_row d ds n)]
     = take 3 ds @ drop (length ds) [''Free / explore locally'', ''Free / explore locally'', ''Dinner / relax'']"
proof (cases ds)
  case Nil
  then show ?thesis by (simp add: make_row_def)
next
  case c1: (Cons a as)
  show ?thesis
  proof (cases as)
    case Nil
    with c1 show ?thesis by (simp add: make_row_def)
  next
    case c2: (Cons b bs)
    show ?thesis
    proof (cases bs)
      case Nil
      with c1 c2 show ?thesis by (simp add: make_row_def)
    next
      case (Cons c cs)
      with c1 c2 show ?thesis by (simp add: make_row_def)
    qed
  qed
qed

lemma distinct_concat_each: "distinct (concat xss) \<Longrightarrow> i < length xss \<Longrightarrow> distinct (xss ! i)"
proof (induction xss arbitrary: i)
  case Nil
  then show ?case by simp
next
  case (Cons xs xss)
  then show ?case by (cases i) simp_all
qed

lemma tail_not_in_heads:
  assumes "distinct (concat xss)" "i < length xss" "j < length xss" "x \<in> set (drop n (xss ! i))"
  shows "x \<notin> set (take n (xss ! j))"
proof (cases "i = j")
  case True
  have "set (take n (xss ! i)) \<inter> set (drop n (xss ! i)) = {}"
    by (rule set_take_disj_set_drop_if_distinct[OF distinct_concat_each[OF assms(1,2)] order_refl])
  with assms(4) True show ?thesis by blast
next
  case False
  have "set (xss ! i) \<inter> set (xss ! j) = {}"
  proof (cases "i < j")
    case True
    then show ?thesis using distinct_concat_nth[OF assms(1) True assms(3)] by simp
  next
    case nlt: False
    with False have "j < i" by simp
    from distinct_concat_nth[OF assms(1) this assms(2)] show ?thesis by blast
  qed
  moreover have "x \<in> set (xss ! i)" using assms(4) by (rule in_set_dropD)
  ultimately show ?thesis using in_set_takeD[of x n "xss ! j"] by blast
qed

lemma itinerary_row_nth:
  assumes "itinerary_agent e city start_date end_date dl = Inr it"
  shows "length (itinerary_traces e (it_place it) (it_start it) (it_end it) dl) = length (it_rows it)"
    and "length (it_rows it) = nat (it_end it - it_start it + 1)"
    and "i < length (it_rows it) \<Longrightarrow>
      it_rows it ! i = make_row (it_start it + int i)
        (selected (itinerary_traces e (it_place it) (it_start it) (it_end it) dl ! i))
        (weather_note_for_day (itinerary_precip e (it_place it) (it_start it) (it_end it))
               (wget (fetch_weather e (lat (it_place it)) (lon (it_place it)) (it_start it) (it_end it))
                  ''temperature_2m_max'')
               (wget (fetch_weather e (lat (it_place it)) (lon (it_place it)) (it_start it) (it_end it))
                  ''temperature_2m_min'') i)"
proof -
  let ?tr = "itinerary_traces e (it_place it) (it_start it) (it_end it) dl"
  have len: "length ?tr = nat (it_end it - it_start it + 1)"
    by (simp add: itinerary_traces_eq day_traces_length)
  show rows: "length ?tr = length (it_rows it)"
    unfolding itinerary_rows_traces[OF assms] using len by simp
  show "length (it_rows it) = nat (it_end it - it_start it + 1)" using rows len by simp
  show "it_rows it ! i = make_row (it_start it + int i) (selected (?tr ! i))
       (weather_note_for_day (itinerary_precip e (it_place it) (it_start it) (it_end it))
               (wget (fetch_weather e (lat (it_place it)) (lon (it_place it)) (it_start it) (it_end it))
                  ''temperature_2m_max'')
               (wget (fetch_weather e (lat (it_place it)) (lon (it_place it)) (it_start it) (it_end it))
                  ''temperature_2m_min'') i)" if "i < length (it_rows it)"
    using that rows[symmetric] len unfolding itinerary_rows_traces[OF assms] by simp
qed

lemma itinerary_trace_select:
  assumes "i < nat (ed - sd + 1)"
  shows "\<exists>idx'. select_day (itinerary_pool e g sd ed dl) (rainy (itinerary_precip e g sd ed) i) dl
       (idx_before (itinerary_traces e g sd ed dl ! i))
       (assigned_before (itinerary_traces e g sd ed dl ! i))
     = (selected (itinerary_traces e g sd ed dl ! i), idx',
        assigned_after (itinerary_traces e g sd ed dl ! i))"
  using day_traces_nth[of i "[0 ..< nat (ed - sd + 1)]" "itinerary_pool e g sd ed dl"
      "itinerary_precip e g sd ed" dl 0 "{}"] assms
  by (simp add: itinerary_traces_eq)

text \<open>
  C9. With a quota above three, a day still selects up to \<open>daily_limit\<close> names (that
  many, unless every name of the pool is assigned by then), and all of them are
  assigned. The row shows the first three only. A name selected beyond the third is in
  no slot of any day, is in the assigned set every later day starts from, and is not
  selected again; unless it is itself one of the placeholder texts, no row shows it.
\<close>

theorem surplus_selection_hidden:
  assumes "itinerary_agent e city start_date end_date daily_limit = Inr it" "3 < daily_limit"
  shows "let tr = itinerary_traces e (it_place it) (it_start it) (it_end it) daily_limit;
             pool = itinerary_pool e (it_place it) (it_start it) (it_end it) daily_limit
         in \<forall>i < length (it_rows it).
              int (length (selected (tr ! i))) \<le> daily_limit
            \<and> (daily_limit \<le> int (length (selected (tr ! i)))
                 \<or> pe_name ` set pool \<subseteq> assigned_after (tr ! i))
            \<and> set (selected (tr ! i)) \<subseteq> assigned_after (tr ! i)
            \<and> [morning (it_rows it ! i), afternoon (it_rows it ! i), evening (it_rows it ! i)]
                = take 3 (selected (tr ! i))
                  @ drop (length (selected (tr ! i)))
                      [''Free / explore locally'', ''Free / explore locally'', ''Dinner / relax'']
            \<and> (\<forall>x \<in> set (drop 3 (selected (tr ! i))).
                  (\<forall>j < length (it_rows it). x \<notin> set (take 3 (selected (tr ! j))))
                \<and> (\<forall>j. i < j \<and> j < length (it_rows it) \<longrightarrow>
                       x \<in> assigned_before (tr ! j) \<and> x \<notin> set (selected (tr ! j)))
                \<and> (x \<noteq> ''Free / explore locally'' \<and> x \<noteq> ''Dinner / relax'' \<longrightarrow>
                     (\<forall>r \<in> set (it_rows it). x \<noteq> morning r \<and> x \<noteq> afternoon r \<and> x \<noteq> evening r)))"
proof -
  let ?tr = "itinerary_traces e (it_place it) (it_start it) (it_end it) daily_limit"
  let ?pool = "itinerary_pool e (it_place it) (it_start it) (it_end it) daily_limit"
  let ?precip = "itinerary_precip e (it_place it) (it_start it) (it_end it)"
  let ?n = "length (it_rows it)"
  note rn = itinerary_row_nth[OF assms(1)]
  have treq: "?tr = day_traces daily_limit ?pool ?precip [0 ..< nat (it_end it - it_start it + 1)] 0 {}"
    by (rule itinerary_traces_eq)
  have dist: "distinct (concat (map selected ?tr))"
    unfolding treq using day_traces_distinct by blast
  have slots: "[morning (it_rows it ! j), afternoon (it_rows it ! j), evening (it_rows it ! j)]
        = take 3 (selected (?tr ! j)) @ drop (length (selected (?tr ! j)))
            [''Free / explore locally'', ''Free / explore locally'', ''Dinner / relax'']"
    if "j < ?n" for j
    unfolding rn(3)[OF that] by (rule make_row_slots)
  have main: "int (length (selected (?tr ! i))) \<le> daily_limit
            \<and> (daily_limit \<le> int (length (selected (?tr ! i)))
                 \<or> pe_name ` set ?pool \<subseteq> assigned_after (?tr ! i))
            \<and> set (selected (?tr ! i)) \<subseteq> assigned_after (?tr ! i)
            \<and> [morning (it_rows it ! i), afternoon (it_rows it ! i), evening (it_rows it ! i)]
                = take 3 (selected (?tr ! i))
                  @ drop (length (selected (?tr ! i)))
                      [''Free / explore locally'', ''Free / explore locally'', ''Dinner / relax'']
            \<and> (\<forall>x \<in> set (drop 3 (selected (?tr ! i))).
                  (\<forall>j < ?n. x \<notin> set (take 3 (selected (?tr ! j))))
                \<and> (\<forall>j. i < j \<and> j < ?n \<longrightarrow>
                       x \<in> assigned_before (?tr ! j) \<and> x \<notin> set (selected (?tr ! j)))
                \<and> (x \<noteq> ''Free / explore locally'' \<and> x \<noteq> ''Dinner / relax'' \<longrightarrow>
                     (\<forall>r \<in> set (it_rows it). x \<noteq> morning r \<and> x \<noteq> afternoon r \<and> x \<noteq> evening r)))"
    if i: "i < ?n" for i
  proof -
    have i': "i < nat (it_end it - it_start it + 1)" using i rn(2) by simp
    obtain idx' where sel: "select_day ?pool (rainy ?precip i) daily_limit
        (idx_before (?tr ! i)) (assigned_before (?tr ! i))
      = (selected (?tr ! i), idx', assigned_after (?tr ! i))"
      using itinerary_trace_select[OF i', of e "it_place it" daily_limit] by blast
    note q = select_day_quota[OF sel]
    have a: "int (length (selected (?tr ! i))) \<le> daily_limit" using q(1) assms(2) by simp
    have "?tr ! i \<in> set ?tr" using i rn(1) by simp
    then have c: "assigned_after (?tr ! i) = assigned_before (?tr ! i) \<union> set (selected (?tr ! i))"
      unfolding treq using day_traces_step by blast
    have e: "(\<forall>j < ?n. x \<notin> set (take 3 (selected (?tr ! j))))
                \<and> (\<forall>j. i < j \<and> j < ?n \<longrightarrow>
                       x \<in> assigned_before (?tr ! j) \<and> x \<notin> set (selected (?tr ! j)))
                \<and> (x \<noteq> ''Free / explore locally'' \<and> x \<noteq> ''Dinner / relax'' \<longrightarrow>
                     (\<forall>r \<in> set (it_rows it). x \<noteq> morning r \<and> x \<noteq> afternoon r \<and> x \<noteq> evening r))"
      if x: "x \<in> set (drop 3 (selected (?tr ! i)))" for x
    proof -
      have xi: "x \<in> set (selected (?tr ! i))" using x by (rule in_set_dropD)
      have x': "x \<in> set (drop 3 (map selected ?tr ! i))" using x i rn(1) by simp
      have e1: "x \<notin> set (take 3 (selected (?tr ! j)))" if "j < ?n" for j
        using tail_not_in_heads[OF dist _ _ x', of j] that i rn(1) by simp
      have e2: "x \<in> assigned_before (?tr ! j) \<and> x \<notin> set (selected (?tr ! j))"
        if "i < j" "j < ?n" for j
      proof -
        have "assigned_after (?tr ! i) \<subseteq> assigned_before (?tr ! j)"
          unfolding treq using day_traces_later[OF that(1), of "[0 ..< nat (it_end it - it_start it + 1)]"]
            that(2) rn(2) by simp
        moreover have "set (map selected ?tr ! i) \<inter> set (map selected ?tr ! j) = {}"
          using distinct_concat_nth[OF dist that(1)] that(2) rn(1) by simp
        ultimately show ?thesis using xi c that i rn(1) by auto
      qed
      have e3: "x \<noteq> morning r \<and> x \<noteq> afternoon r \<and> x \<noteq> evening r"
        if ph: "x \<noteq> ''Free / explore locally''" "x \<noteq> ''Dinner / relax''" and r: "r \<in> set (it_rows it)" for r
      proof -
        obtain j where j: "j < ?n" "r = it_rows it ! j" using r by (auto simp: in_set_conv_nth)
        have "x \<notin> set [morning r, afternoon r, evening r]"
          unfolding j(2) slots[OF j(1)] using e1[OF j(1)] ph
          by (auto dest: in_set_dropD)
        then show ?thesis by simp
      qed
      show ?thesis using e1 e2 e3 by blast
    qed
    have c': "set (selected (?tr ! i)) \<subseteq> assigned_after (?tr ! i)" using c by blast
    have e': "\<forall>x \<in> set (drop 3 (selected (?tr ! i))).
                  (\<forall>j < ?n. x \<notin> set (take 3 (selected (?tr ! j))))
                \<and> (\<forall>j. i < j \<and> j < ?n \<longrightarrow>
                       x \<in> assigned_before (?tr ! j) \<and> x \<notin> set (selected (?tr ! j)))
                \<and> (x \<noteq> ''Free / explore locally'' \<and> x \<noteq> ''Dinner / relax'' \<longrightarrow>
                     (\<forall>r \<in> set (it_rows it). x \<noteq> morning r \<and> x \<noteq> afternoon r \<and> x \<noteq> evening r))"
      using e by (intro ballI)
    show ?thesis using a q(2) c' slots[OF i] e' by (intro conjI)
  qed
  show ?thesis unfolding Let_def using main by (intro allI impI)
qed

lemma demo_traces_4:
  "map selected (itinerary_traces demo_env
      \<lparr>lat = 15, lon = 74, place_name = ''Goa, India'', category = ''other''\<rparr> 738895 738897 4)
   = [[''Central Library'', ''Goa State Museum'', ''Kala Academy'', ''Fort Aguada''],
      [''Calangute Beach''], []]"
  by code_simp

section \<open>Rainy days\<close>







text \<open>
  C9 in the example world: with a quota of four, the first day in Goa selects four
  names; the fourth is in no slot and stays assigned on the second day.
\<close>

theorem surplus_selection_hidden_witness:
  "selected (itinerary_traces demo_env
      \<lparr>lat = 15, lon = 74, place_name = ''Goa, India'', category = ''other''\<rparr> 738895 738897 4 ! 0)
     = [''Central Library'', ''Goa State Museum'', ''Kala Academy'', ''Fort Aguada'']
   \<and> ''Fort Aguada'' \<notin> set (take 3 (selected (itinerary_traces demo_env
      \<lparr>lat = 15, lon = 74, place_name = ''Goa, India'', category = ''other''\<rparr> 738895 738897 4 ! 0)))
   \<and> ''Fort Aguada'' \<notin> set (selected (itinerary_traces demo_env
      \<lparr>lat = 15, lon = 74, place_name = ''Goa, India'', category = ''other''\<rparr> 738895 738897 4 ! 1))
   \<and> ''Fort Aguada'' \<in> assigned_before (itinerary_traces demo_env
      \<lparr>lat = 15, lon = 74, place_name = ''Goa, India'', category = ''other''\<rparr> 738895 738897 4 ! 1)"
proof -
  let ?G = "\<lparr>lat = 15, lon = 74, place_name = ''Goa, India'', category = ''other''\<rparr>"
  let ?T = "itinerary_traces demo_env ?G 738895 738897 4"
  obtain it where it: "itinerary_agent demo_env ''Goa'' ''2024-01-10'' ''2024-01-12'' 4 = Inr it"
    "it_place it = ?G" "it_start it = 738895" "it_end it = 738897"
    using itinerary_agent_fields[OF demo_geocode_goa demo_parse_dates(1,2), of 4] by auto
  have n: "length (it_rows it) = 3" using itinerary_row_nth(2)[OF it(1)] it(3,4) by simp
  have len: "length ?T = 3" using itinerary_row_nth(1)[OF it(1)] n it(2,3,4) by simp
  have "map selected ?T ! 0 = [''Central Library'', ''Goa State Museum'', ''Kala Academy'', ''Fort Aguada'']"
    by (simp only: demo_traces_4 nth_Cons_0)
  then have s0: "selected (?T ! 0)
      = [''Central Library'', ''Goa State Museum'', ''Kala Academy'', ''Fort Aguada'']"
    using len by simp
  have x: "''Fort Aguada'' \<in> set (drop 3 (selected (?T ! 0)))" unfolding s0 by simp
  have "(3::int) < 4" by simp
  from surplus_selection_hidden[OF it(1) this, unfolded Let_def it(2,3,4) n] x
  have "''Fort Aguada'' \<notin> set (take 3 (selected (?T ! 0)))"
    "''Fort Aguada'' \<in> assigned_before (?T ! 1) \<and> ''Fort Aguada'' \<notin> set (selected (?T ! 1))"
    by (metis zero_less_numeral, metis one_less_numeral_iff semiring_norm(77) zero_less_numeral zero_less_one)
  with s0 show ?thesis by blast
qed




end
